theory Spec2Isabelle
  imports Complex_Main
begin

section \<open>The escape-time kernel of \<^verbatim>\<open>mandelbrot.py\<close>\<close>

text \<open>
  The program computes with numpy's \<^verbatim>\<open>float64\<close> and \<^verbatim>\<open>complex128\<close>. A finite value of
  these types is a real or a complex number, so the values are of type \<open>real\<close> and
  \<open>complex\<close>; NaN and the infinities are not values of the model. The operations of
  numpy on these values round, and their results are not in the source file: they are
  the fields of the record \<open>arith\<close>, a parameter of every function below. What is proved
  for every \<open>arith\<close> holds of the float64 program; \<open>exact_arith\<close> is the arithmetic
  without rounding, with which float64 agrees wherever an operation is exact. Python's
  \<^verbatim>\<open>int\<close> is \<open>int\<close>; the two sample counts are \<open>nat\<close> (numpy rejects a negative count
  before anything is computed).
\<close>

subsection \<open>The arithmetic\<close>

text \<open>
  \<open>np_abs z\<close> is \<^verbatim>\<open>abs(z)\<close>, \<open>np_square z\<close> is \<^verbatim>\<open>z**2\<close>, \<open>np_add z c\<close> is \<^verbatim>\<open>z + c\<close>, on
  \<^verbatim>\<open>complex128\<close>; \<open>np_sample lo hi N k\<close> is the float64 value of sample \<open>k\<close> of
  \<^verbatim>\<open>np.linspace(lo, hi, N)\<close>.
\<close>

record arith =
  np_abs :: "complex \<Rightarrow> real"
  np_square :: "complex \<Rightarrow> complex"
  np_add :: "complex \<Rightarrow> complex \<Rightarrow> complex"
  np_sample :: "real \<Rightarrow> real \<Rightarrow> nat \<Rightarrow> nat \<Rightarrow> real"

subsection \<open>Configuration\<close>

text \<open>
  \<^verbatim>\<open>
  width, height = 400, 400
  frames = 60
  max_iterations = 50
  x = np.linspace(-2, 2, width)
  y = np.linspace(-2, 2, height)
  \<close>
  The module-level constants, with the interval that both \<^verbatim>\<open>linspace\<close> calls share, are
  the fields of a record, so that the kernel can be stated for any configuration and run
  on a small one.
\<close>

record config =
  width :: nat
  height :: nat
  frames :: int
  max_iterations :: int
  domain_lo :: real
  domain_hi :: real

definition program_config :: config where
  "program_config = \<lparr>width = 400, height = 400, frames = 60, max_iterations = 50,
     domain_lo = - 2, domain_hi = 2\<rparr>"

text \<open>The end-to-end scenario of the specification: a 3 by 3 grid over \<open>[-1, 1]\<close>, bound 5.\<close>

definition scenario_config :: config where
  "scenario_config = \<lparr>width = 3, height = 3, frames = 60, max_iterations = 5,
     domain_lo = - 1, domain_hi = 1\<rparr>"

subsection \<open>The evaluator\<close>

text \<open>
  \<^verbatim>\<open>
  def mandelbrot(c, max_iter):
      z = c
      for n in range(max_iter):
          if abs(z) > 2:
              return n
          z = z**2 + c
      return max_iter
  \<close>
  The \<^verbatim>\<open>for\<close> loop over \<^verbatim>\<open>range(max_iter)\<close> is the recursion \<open>mandelbrot_loop\<close> on the
  loop state \<open>(z, n)\<close>; a bound that is zero or negative gives an empty range. The
  comparison of \<^verbatim>\<open>abs(z)\<close> with 2 is exact in float64.
\<close>

function mandelbrot_loop :: "arith \<Rightarrow> complex \<Rightarrow> complex \<Rightarrow> int \<Rightarrow> int \<Rightarrow> int" where
  "mandelbrot_loop ar c z n max_iter =
     (if n < max_iter
      then (if np_abs ar z > 2 then n
            else mandelbrot_loop ar c (np_add ar (np_square ar z) c) (n + 1) max_iter)
      else max_iter)"
  by pat_completeness auto
termination
  by (relation "measure (\<lambda>(ar, c, z, n, max_iter). nat (max_iter - n))") auto

definition mandelbrot :: "arith \<Rightarrow> complex \<Rightarrow> int \<Rightarrow> int" where
  "mandelbrot ar c max_iter = mandelbrot_loop ar c c 0 max_iter"

text \<open>
  The sequence of the specification, \<open>z\<^sub>0 = c\<close> and \<open>z\<^sub>k\<^sub>+\<^sub>1 = z\<^sub>k\<^sup>2 + c\<close>, in the arithmetic
  of the program.
\<close>

fun z_seq :: "arith \<Rightarrow> complex \<Rightarrow> nat \<Rightarrow> complex" where
  "z_seq ar c 0 = c"
| "z_seq ar c (Suc k) = np_add ar (np_square ar (z_seq ar c k)) c"

subsection \<open>The sample grid\<close>

text \<open>
  Modelled from the spec: \<^verbatim>\<open>np.linspace\<close> is a numpy routine, not part of the source
  file. The specification's Grid Builder gives \<open>N\<close> values from \<open>lo\<close> to \<open>hi\<close> by linear
  interpolation; the \<open>k\<close>-th sample is \<open>lo + k * (hi - lo) / (N - 1)\<close>. For \<open>N = 1\<close> the
  step is irrelevant, since only \<open>k = 0\<close> occurs, and the one sample is \<open>lo\<close>, as numpy
  returns it.
\<close>

definition linspace :: "real \<Rightarrow> real \<Rightarrow> nat \<Rightarrow> real list" where
  "linspace lo hi N = map (\<lambda>k. lo + real k * ((hi - lo) / real (N - 1))) [0..<N]"

text \<open>
  The arithmetic without rounding: the modulus, the square and the sum of complex
  numbers, and the samples of the Grid Builder above.
\<close>

definition exact_arith :: arith where
  "exact_arith = \<lparr>np_abs = cmod, np_square = (\<lambda>z. z\<^sup>2), np_add = (\<lambda>z c. z + c),
     np_sample = (\<lambda>lo hi N k. lo + real k * ((hi - lo) / real (N - 1)))\<rparr>"

text \<open>
  Modelled from the spec: the array that the program gets from \<^verbatim>\<open>np.linspace\<close> has \<open>N\<close>
  elements, the specification's Coordinate Sequence of \<open>N\<close> values; the float64 value of
  each is left to the arithmetic.
\<close>

definition np_linspace :: "arith \<Rightarrow> real \<Rightarrow> real \<Rightarrow> nat \<Rightarrow> real list" where
  "np_linspace ar lo hi N = map (np_sample ar lo hi N) [0..<N]"

text \<open>
  Modelled from the spec: \<^verbatim>\<open>np.meshgrid\<close> is a numpy routine as well. It repeats the first
  sequence in every row and the second down every column, so that both results have one
  row per element of \<open>ys\<close>.
\<close>

definition meshgrid :: "'a list \<Rightarrow> 'a list \<Rightarrow> 'a list list \<times> 'a list list" where
  "meshgrid xs ys = (map (\<lambda>_. xs) ys, map (\<lambda>v. map (\<lambda>_. v) xs) ys)"

text \<open>
  \<^verbatim>\<open>
  x = np.linspace(-2, 2, width)
  y = np.linspace(-2, 2, height)
  X, Y = np.meshgrid(x, y)
  C = X + 1j * Y
  \<close>
  The sum is taken element by element, which gives the specification's
  \<open>grid[row][col] = real_axis[col] + i * imag_axis[row]\<close>; it puts the two float64 values
  side by side and rounds nothing. A two-dimensional array is the list of its rows. The
  source's arrays \<^verbatim>\<open>x\<close>, \<^verbatim>\<open>y\<close> and \<^verbatim>\<open>C\<close> are \<open>x_coords\<close>, \<open>y_coords\<close> and \<open>C_grid\<close>.
\<close>

definition x_coords :: "arith \<Rightarrow> config \<Rightarrow> real list" where
  "x_coords ar cfg = np_linspace ar (domain_lo cfg) (domain_hi cfg) (width cfg)"

definition y_coords :: "arith \<Rightarrow> config \<Rightarrow> real list" where
  "y_coords ar cfg = np_linspace ar (domain_lo cfg) (domain_hi cfg) (height cfg)"

definition C_grid :: "arith \<Rightarrow> config \<Rightarrow> complex list list" where
  "C_grid ar cfg =
     (case meshgrid (x_coords ar cfg) (y_coords ar cfg) of
        (X, Y) \<Rightarrow> map2 (map2 (\<lambda>a b. complex_of_real a + \<i> * complex_of_real b)) X Y)"

subsection \<open>The escape field\<close>

text \<open>
  \<^verbatim>\<open>
  mandelbrot_set = np.zeros((height, width))
  for i in range(width):
      for j in range(height):
          mandelbrot_set[j, i] = mandelbrot(C[j, i], max_iterations)
  \<close>
  The array is a store that the loop updates one cell at a time. Reading or writing a
  cell outside the array raises \<^verbatim>\<open>IndexError\<close>, which is the result \<open>None\<close>. The count
  is stored in a \<^verbatim>\<open>float64\<close> cell, hence \<open>of_int\<close>. The loop \<open>sweep\<close> takes the list of
  index pairs \<open>(i, j)\<close> it visits; the source visits them column by column.
\<close>

definition zeros :: "nat \<Rightarrow> nat \<Rightarrow> real list list" where
  "zeros h w = replicate h (replicate w 0)"

definition getitem :: "'a list list \<Rightarrow> nat \<Rightarrow> nat \<Rightarrow> 'a option" where
  "getitem a j i = (if j < length a \<and> i < length (a ! j) then Some (a ! j ! i) else None)"

definition setitem :: "'a list list \<Rightarrow> nat \<Rightarrow> nat \<Rightarrow> 'a \<Rightarrow> 'a list list option" where
  "setitem a j i v =
     (if j < length a \<and> i < length (a ! j) then Some (a[j := (a ! j)[i := v]]) else None)"

fun sweep ::
  "arith \<Rightarrow> int \<Rightarrow> complex list list \<Rightarrow> (nat \<times> nat) list \<Rightarrow> real list list
     \<Rightarrow> real list list option"
where
  "sweep ar M C [] ms = Some ms"
| "sweep ar M C ((i, j) # ps) ms =
     (case getitem C j i of
        None \<Rightarrow> None
      | Some c \<Rightarrow>
          (case setitem ms j i (of_int (mandelbrot ar c M)) of
             None \<Rightarrow> None
           | Some ms' \<Rightarrow> sweep ar M C ps ms'))"

definition loop_order :: "nat \<Rightarrow> nat \<Rightarrow> (nat \<times> nat) list" where
  "loop_order w h = concat (map (\<lambda>i. map (\<lambda>j. (i, j)) [0..<h]) [0..<w])"

definition mandelbrot_set :: "arith \<Rightarrow> config \<Rightarrow> real list list option" where
  "mandelbrot_set ar cfg =
     sweep ar (max_iterations cfg) (C_grid ar cfg) (loop_order (width cfg) (height cfg))
       (zeros (height cfg) (width cfg))"

subsection \<open>Auxiliary notions for the proofs\<close>

text \<open>An array of \<open>h\<close> rows of \<open>w\<close> cells, and the field that the loop is shown to build.\<close>

definition shape :: "nat \<Rightarrow> nat \<Rightarrow> 'a list list \<Rightarrow> bool" where
  "shape h w a \<longleftrightarrow> length a = h \<and> (\<forall>r \<in> set a. length r = w)"

definition field_of ::
  "arith \<Rightarrow> int \<Rightarrow> complex list list \<Rightarrow> nat \<Rightarrow> nat \<Rightarrow> real list list" where
  "field_of ar M C h w =
     map (\<lambda>j. map (\<lambda>i. of_int (mandelbrot ar (C ! j ! i) M)) [0..<w]) [0..<h]"

section \<open>Properties of the evaluator\<close>

declare mandelbrot_loop.simps [simp del]

subsection \<open>In every arithmetic\<close>

lemma mandelbrot_loop_bounds:
  "n \<le> max_iter \<Longrightarrow> n \<le> mandelbrot_loop ar c z n max_iter \<and> mandelbrot_loop ar c z n max_iter \<le> max_iter"
proof (induction ar c z n max_iter rule: mandelbrot_loop.induct)
  case (1 ar c z n max_iter)
  show ?case
  proof (cases "n < max_iter \<and> \<not> np_abs ar z > 2")
    case True
    with "1.IH" have "n + 1 \<le> mandelbrot_loop ar c (np_add ar (np_square ar z) c) (n + 1) max_iter
        \<and> mandelbrot_loop ar c (np_add ar (np_square ar z) c) (n + 1) max_iter \<le> max_iter"
      by simp
    with True show ?thesis
      by (subst (1 2) mandelbrot_loop.simps) simp
  next
    case False
    with "1.prems" show ?thesis
      by (subst (1 2) mandelbrot_loop.simps) auto
  qed
qed

lemma mandelbrot_loop_past: "max_iter \<le> n \<Longrightarrow> mandelbrot_loop ar c z n max_iter = max_iter"
  by (subst mandelbrot_loop.simps) simp


lemma mandelbrot_loop_mono:
  "M1 \<le> M2 \<Longrightarrow> mandelbrot_loop ar c z n M1 \<le> mandelbrot_loop ar c z n M2"
proof (induction ar c z n M1 rule: mandelbrot_loop.induct)
  case (1 ar c z n M1)
  show ?case
  proof (cases "n < M1")
    case True
    show ?thesis
    proof (cases "2 < np_abs ar z")
      case True
      with \<open>n < M1\<close> "1.prems" show ?thesis
        by (subst (1 2) mandelbrot_loop.simps) simp
    next
      case False
      with \<open>n < M1\<close> "1.IH" "1.prems"
      have "mandelbrot_loop ar c (np_add ar (np_square ar z) c) (n + 1) M1 \<le> mandelbrot_loop ar c (np_add ar (np_square ar z) c) (n + 1) M2"
        by simp
      with False \<open>n < M1\<close> "1.prems" show ?thesis
        by (subst (1 2) mandelbrot_loop.simps) simp
    qed
  next
    case False
    then have eq: "mandelbrot_loop ar c z n M1 = M1"
      by (simp add: mandelbrot_loop_past)
    show ?thesis
    proof (cases "n \<le> M2")
      case True
      then have "n \<le> mandelbrot_loop ar c z n M2"
        by (simp add: mandelbrot_loop_bounds)
      with False eq show ?thesis by simp
    next
      case False
      then have "mandelbrot_loop ar c z n M2 = M2"
        by (simp add: mandelbrot_loop_past)
      with eq "1.prems" show ?thesis by simp
    qed
  qed
qed

lemma mandelbrot_loop_fixed:
  assumes "np_abs ar z \<le> 2" and "np_add ar (np_square ar z) c = z"
  shows "mandelbrot_loop ar c z n max_iter = max_iter"
  using assms
proof (induction ar c z n max_iter rule: mandelbrot_loop.induct)
  case (1 ar c z n max_iter)
  show ?case
  proof (cases "n < max_iter")
    case True
    with "1.IH" "1.prems" have "mandelbrot_loop ar c z (n + 1) max_iter = max_iter"
      by simp
    with True "1.prems" show ?thesis
      by (subst mandelbrot_loop.simps) simp
  next
    case False
    then show ?thesis
      by (subst mandelbrot_loop.simps) simp
  qed
qed

subsection \<open>In the arithmetic without rounding\<close>

text \<open>The escape test on the squares of the two parts, which makes the loop computable.\<close>

lemma cmod_gt_2_iff: "cmod z > 2 \<longleftrightarrow> (Re z)\<^sup>2 + (Im z)\<^sup>2 > 4"
proof -
  have "cmod z > 2 \<longleftrightarrow> (cmod z)\<^sup>2 > 2\<^sup>2"
    using power_strict_mono [of 2 "cmod z" 2] power2_less_imp_less [of 2 "cmod z"]
    by auto
  then show ?thesis
    by (simp add: cmod_power2)
qed

lemma mandelbrot_loop_exact:
  "mandelbrot_loop exact_arith c z n max_iter =
     (if n < max_iter
      then (if (Re z)\<^sup>2 + (Im z)\<^sup>2 > 4 then n
            else mandelbrot_loop exact_arith c (z\<^sup>2 + c) (n + 1) max_iter)
      else max_iter)"
  by (subst mandelbrot_loop.simps) (simp add: cmod_gt_2_iff exact_arith_def)

lemma mandelbrot_scenario_corner: "mandelbrot exact_arith (Complex (- 1) (- 1)) 5 = 2"
  by (simp add: mandelbrot_def mandelbrot_loop_exact power2_eq_square)

subsection \<open>The claims about the evaluator\<close>





text \<open>
  C6: for \<open>c = 0\<close> the evaluator returns the bound itself, whatever the bound is: the
  iterate stays \<open>0\<close> and the escape test never fires.
\<close>

theorem mandelbrot_origin: "mandelbrot exact_arith 0 M = M"
  by (simp add: mandelbrot_def mandelbrot_loop_fixed exact_arith_def)

text \<open>
  C7: for a fixed \<open>c\<close> the evaluator is monotone in the bound: \<open>M1 \<le> M2\<close> gives
  \<open>mandelbrot c M1 \<le> mandelbrot c M2\<close>, in every arithmetic.
\<close>

theorem mandelbrot_mono: "M1 \<le> M2 \<Longrightarrow> mandelbrot ar c M1 \<le> mandelbrot ar c M2"
  by (simp add: mandelbrot_def mandelbrot_loop_mono)

theorem mandelbrot_mono_witness:
  "(1::int) \<le> 5 \<and> mandelbrot exact_arith (Complex (- 1) (- 1)) 1
      \<le> mandelbrot exact_arith (Complex (- 1) (- 1)) 5"
  using mandelbrot_mono [of 1 5 exact_arith "Complex (- 1) (- 1)"] by simp

section \<open>Properties of the grid and of the escape field\<close>


lemma shape_nth: "shape h w a \<Longrightarrow> j < h \<Longrightarrow> length (a ! j) = w"
  by (simp add: shape_def)

lemma shape_zeros: "shape h w (zeros h w)"
  by (simp add: shape_def zeros_def)

lemma shape_update:
  assumes "shape h w a"
  shows "shape h w (a[j := (a ! j)[i := v]])"
proof (cases "j < h")
  case True
  with assms show ?thesis
    by (auto simp: shape_def set_conv_nth nth_list_update)
next
  case False
  with assms have "a[j := (a ! j)[i := v]] = a"
    by (simp add: shape_def list_update_beyond)
  with assms show ?thesis by simp
qed

lemma shape_eqI:
  assumes "shape h w a" and "shape h w b"
    and "\<And>j i. j < h \<Longrightarrow> i < w \<Longrightarrow> a ! j ! i = b ! j ! i"
  shows "a = b"
proof (rule nth_equalityI)
  show "length a = length b" using assms(1,2) by (simp add: shape_def)
next
  fix j assume "j < length a"
  then have j: "j < h" using assms(1) by (simp add: shape_def)
  show "a ! j = b ! j"
  proof (rule nth_equalityI)
    show "length (a ! j) = length (b ! j)"
      using assms(1,2) j by (simp add: shape_nth)
  next
    fix i assume "i < length (a ! j)"
    then have "i < w" using assms(1) j by (simp add: shape_nth)
    with j show "a ! j ! i = b ! j ! i" by (rule assms(3))
  qed
qed

lemma sweep_inv:
  assumes "shape h w C" and "shape h w ms" and "\<forall>(i, j) \<in> set ps. i < w \<and> j < h"
  shows "\<exists>ms'. sweep ar M C ps ms = Some ms' \<and> shape h w ms' \<and>
     (\<forall>j<h. \<forall>i<w. ms' ! j ! i =
        (if (i, j) \<in> set ps then of_int (mandelbrot ar (C ! j ! i) M) else ms ! j ! i))"
  using assms(2,3)
proof (induction ps arbitrary: ms)
  case Nil
  then show ?case by simp
next
  case (Cons p ps)
  obtain i j where p: "p = (i, j)" by (cases p)
  with Cons.prems have ij: "i < w" "j < h" by auto
  define v :: real where "v = of_int (mandelbrot ar (C ! j ! i) M)"
  define ms1 where "ms1 = ms[j := (ms ! j)[i := v]]"
  have get: "getitem C j i = Some (C ! j ! i)"
    using assms(1) ij by (simp add: getitem_def shape_def)
  have set: "setitem ms j i v = Some ms1"
    using Cons.prems(1) ij by (simp add: setitem_def shape_def ms1_def)
  have sh1: "shape h w ms1"
    unfolding ms1_def using Cons.prems(1) by (rule shape_update)
  have rest: "\<forall>(i, j) \<in> set ps. i < w \<and> j < h"
    using Cons.prems(2) by simp
  from Cons.IH [OF sh1 rest] obtain ms' where
    run: "sweep ar M C ps ms1 = Some ms'" and sh': "shape h w ms'" and
    val: "\<forall>j<h. \<forall>i<w. ms' ! j ! i =
        (if (i, j) \<in> set ps then of_int (mandelbrot ar (C ! j ! i) M) else ms1 ! j ! i)"
    by blast
  have upd: "ms1 ! j' ! i' = (if j' = j \<and> i' = i then v else ms ! j' ! i')"
    if "j' < h" "i' < w" for j' i'
    using that Cons.prems(1) ij by (auto simp: ms1_def shape_def nth_list_update)
  have "sweep ar M C (p # ps) ms = Some ms'"
    using get set run by (simp add: p v_def)
  moreover have "\<forall>j'<h. \<forall>i'<w. ms' ! j' ! i' =
        (if (i', j') \<in> set (p # ps) then of_int (mandelbrot ar (C ! j' ! i') M) else ms ! j' ! i')"
    using val upd by (auto simp: p v_def)
  ultimately show ?case using sh' by blast
qed

lemma shape_field_of: "shape h w (field_of ar M C h w)"
  by (simp add: shape_def field_of_def)

lemma field_of_nth: "j < h \<Longrightarrow> i < w \<Longrightarrow> field_of ar M C h w ! j ! i = of_int (mandelbrot ar (C ! j ! i) M)"
  by (simp add: field_of_def)

lemma sweep_any_order:
  assumes "shape h w C" and "set ps = {0..<w} \<times> {0..<h}"
  shows "sweep ar M C ps (zeros h w) = Some (field_of ar M C h w)"
proof -
  have "\<forall>(i, j) \<in> set ps. i < w \<and> j < h"
    using assms(2) by auto
  from sweep_inv [OF assms(1) shape_zeros this, of ar M] obtain ms' where
    run: "sweep ar M C ps (zeros h w) = Some ms'" and sh': "shape h w ms'" and
    val: "\<forall>j<h. \<forall>i<w. ms' ! j ! i =
        (if (i, j) \<in> set ps then of_int (mandelbrot ar (C ! j ! i) M) else zeros h w ! j ! i)"
    by blast
  have "ms' = field_of ar M C h w"
  proof (rule shape_eqI [OF sh' shape_field_of])
    fix j i assume "j < h" "i < w"
    then show "ms' ! j ! i = field_of ar M C h w ! j ! i"
      using val assms(2) by (simp add: field_of_nth)
  qed
  with run show ?thesis by simp
qed

lemma length_linspace: "length (linspace lo hi N) = N"
  by (simp add: linspace_def)

lemma length_np_linspace: "length (np_linspace ar lo hi N) = N"
  by (simp add: np_linspace_def)

lemma np_linspace_exact: "np_linspace exact_arith lo hi N = linspace lo hi N"
  by (simp add: np_linspace_def linspace_def exact_arith_def)

lemma linspace_nth: "k < N \<Longrightarrow> linspace lo hi N ! k = lo + real k * ((hi - lo) / real (N - 1))"
  by (simp add: linspace_def)

lemma shape_C_grid: "shape (height cfg) (width cfg) (C_grid ar cfg)"
  by (auto simp: shape_def C_grid_def meshgrid_def x_coords_def y_coords_def
      length_np_linspace set_zip)

lemma C_grid_nth:
  "j < height cfg \<Longrightarrow> i < width cfg \<Longrightarrow>
   C_grid ar cfg ! j ! i = complex_of_real (x_coords ar cfg ! i) + \<i> * complex_of_real (y_coords ar cfg ! j)"
  by (simp add: C_grid_def meshgrid_def x_coords_def y_coords_def length_np_linspace)

lemma set_loop_order: "set (loop_order w h) = {0..<w} \<times> {0..<h}"
  by (auto simp: loop_order_def)

lemma mandelbrot_set_eq:
  "mandelbrot_set ar cfg = Some (field_of ar (max_iterations cfg) (C_grid ar cfg) (height cfg) (width cfg))"
  unfolding mandelbrot_set_def
  by (rule sweep_any_order [OF shape_C_grid set_loop_order])

lemma field_of_range:
  assumes "0 \<le> M" and "row \<in> set (field_of ar M C h w)" and "v \<in> set row"
  shows "v \<in> \<int> \<and> 0 \<le> v \<and> v \<le> of_int M"
proof -
  from assms(2,3) obtain c where v: "v = of_int (mandelbrot ar c M)"
    by (auto simp: field_of_def)
  have "0 \<le> mandelbrot ar c M \<and> mandelbrot ar c M \<le> M"
    using mandelbrot_loop_bounds [of 0 M ar c c] assms(1) by (simp add: mandelbrot_def)
  with v show ?thesis by simp
qed

subsection \<open>The claims about the grid and the field\<close>

text \<open>
  C2: the escape field has \<open>height\<close> rows of \<open>width\<close> entries (400 by 400 in the program's
  configuration), the entry in row \<open>j\<close> and column \<open>i\<close> is
  \<open>mandelbrot (x[i] + \<i> * y[j]) max_iterations\<close>, and a loop that visits the grid points in
  any other order builds the same field. This holds in every arithmetic.
\<close>

theorem escape_field_map:
  assumes "set order = {0..<width cfg} \<times> {0..<height cfg}"
  shows "\<exists>F. mandelbrot_set ar cfg = Some F
     \<and> sweep ar (max_iterations cfg) (C_grid ar cfg) order (zeros (height cfg) (width cfg))
         = Some F
     \<and> length F = height cfg
     \<and> (\<forall>j<height cfg. length (F ! j) = width cfg
           \<and> (\<forall>i<width cfg. F ! j ! i =
                 of_int (mandelbrot ar (complex_of_real (x_coords ar cfg ! i)
                                         + \<i> * complex_of_real (y_coords ar cfg ! j))
                           (max_iterations cfg))))"
proof -
  let ?F = "field_of ar (max_iterations cfg) (C_grid ar cfg) (height cfg) (width cfg)"
  have "sweep ar (max_iterations cfg) (C_grid ar cfg) order (zeros (height cfg) (width cfg))
      = Some ?F"
    by (rule sweep_any_order [OF shape_C_grid assms])
  moreover have "length ?F = height cfg"
    by (simp add: field_of_def)
  moreover have "\<forall>j<height cfg. length (?F ! j) = width cfg
           \<and> (\<forall>i<width cfg. ?F ! j ! i =
                 of_int (mandelbrot ar (complex_of_real (x_coords ar cfg ! i)
                                         + \<i> * complex_of_real (y_coords ar cfg ! j))
                           (max_iterations cfg)))"
    by (simp add: field_of_def C_grid_nth)
  ultimately show ?thesis
    using mandelbrot_set_eq [of ar cfg] by blast
qed

theorem escape_field_map_witness:
  "set (concat (map (\<lambda>j. map (\<lambda>i. (i, j)) [0..<400]) [0..<400])) = {0..<400} \<times> {0..<400}
   \<and> (\<exists>F. mandelbrot_set exact_arith program_config = Some F
     \<and> sweep exact_arith 50 (C_grid exact_arith program_config)
          (concat (map (\<lambda>j. map (\<lambda>i. (i, j)) [0..<400]) [0..<400])) (zeros 400 400) = Some F
     \<and> length F = 400
     \<and> (\<forall>j<400. length (F ! j) = 400
           \<and> (\<forall>i<400. F ! j ! i =
                 of_int (mandelbrot exact_arith
                           (complex_of_real (x_coords exact_arith program_config ! i)
                              + \<i> * complex_of_real (y_coords exact_arith program_config ! j))
                           50))))"
proof -
  have h: "set (concat (map (\<lambda>j. map (\<lambda>i. (i, j)) [0..<400]) [0..<400]))
      = {0..<width program_config} \<times> {0..<height program_config}"
    by (auto simp: program_config_def)
  show ?thesis
    using h escape_field_map [OF h, of exact_arith] by (simp add: program_config_def)
qed

text \<open>
  C3: for a bound \<open>M \<ge> 0\<close> the evaluator's result is an integer between \<open>0\<close> and \<open>M\<close>,
  and with \<open>max_iterations \<ge> 0\<close> every entry of the escape field is an integer between \<open>0\<close>
  and \<open>max_iterations\<close>. This holds in every arithmetic.
\<close>

theorem escape_count_range:
  assumes "0 \<le> M" and "0 \<le> max_iterations cfg"
  shows "0 \<le> mandelbrot ar c M \<and> mandelbrot ar c M \<le> M
     \<and> (\<exists>F. mandelbrot_set ar cfg = Some F
          \<and> (\<forall>row \<in> set F. \<forall>v \<in> set row.
                v \<in> \<int> \<and> 0 \<le> v \<and> v \<le> of_int (max_iterations cfg)))"
proof -
  have "0 \<le> mandelbrot ar c M \<and> mandelbrot ar c M \<le> M"
    using mandelbrot_loop_bounds [of 0 M ar c c] assms(1) by (simp add: mandelbrot_def)
  moreover have
    "\<forall>row \<in> set (field_of ar (max_iterations cfg) (C_grid ar cfg) (height cfg) (width cfg)).
      \<forall>v \<in> set row. v \<in> \<int> \<and> 0 \<le> v \<and> v \<le> of_int (max_iterations cfg)"
    using field_of_range [OF assms(2)] by blast
  ultimately show ?thesis
    using mandelbrot_set_eq [of ar cfg] by blast
qed

theorem escape_count_range_witness:
  "(0::int) \<le> 5 \<and> 0 \<le> max_iterations scenario_config
   \<and> 0 \<le> mandelbrot exact_arith (Complex (- 1) (- 1)) 5
   \<and> mandelbrot exact_arith (Complex (- 1) (- 1)) 5 \<le> 5
   \<and> (\<exists>F. mandelbrot_set exact_arith scenario_config = Some F
        \<and> (\<forall>row \<in> set F. \<forall>v \<in> set row. v \<in> \<int> \<and> 0 \<le> v \<and> v \<le> 5))"
proof -
  have h1: "(0::int) \<le> 5" by simp
  have h2: "0 \<le> max_iterations scenario_config" by (simp add: scenario_config_def)
  show ?thesis
    using h1 h2 escape_count_range [OF h1 h2, of exact_arith "Complex (- 1) (- 1)"]
    by (simp add: scenario_config_def)
qed

text \<open>
  C4, as the code has it: in the scenario the grid is the 3 by 3 table of the points with
  parts in \<open>{-1, 0, 1}\<close>, and the evaluator returns 2 at \<open>c = -1 - \<i>\<close> with bound 5: the
  tests on \<open>z\<^sub>0 = -1 - \<i>\<close> and \<open>z\<^sub>1 = -1 + \<i>\<close> fail, the test on \<open>z\<^sub>2 = -1 - 3\<i>\<close> fires.
  The value 1 that the scenario names is not what the evaluator returns there. All
  numbers of this run are small integers, on which float64 does not round, and the
  moduli \<open>\<surd>2\<close> and \<open>\<surd>10\<close> are far from 2, so the run is the one in \<open>exact_arith\<close>.
\<close>

theorem scenario_grid_and_corner:
  "C_grid exact_arith scenario_config =
     [[Complex (- 1) (- 1), Complex 0 (- 1), Complex 1 (- 1)],
      [Complex (- 1) 0, Complex 0 0, Complex 1 0],
      [Complex (- 1) 1, Complex 0 1, Complex 1 1]]
   \<and> z_seq exact_arith (Complex (- 1) (- 1)) 1 = Complex (- 1) 1
   \<and> z_seq exact_arith (Complex (- 1) (- 1)) 2 = Complex (- 1) (- 3)
   \<and> mandelbrot exact_arith (Complex (- 1) (- 1)) 5 = 2"
proof -
  have "C_grid exact_arith scenario_config =
     [[Complex (- 1) (- 1), Complex 0 (- 1), Complex 1 (- 1)],
      [Complex (- 1) 0, Complex 0 0, Complex 1 0],
      [Complex (- 1) 1, Complex 0 1, Complex 1 1]]"
    by (simp add: C_grid_def meshgrid_def x_coords_def y_coords_def np_linspace_exact
        linspace_def scenario_config_def upt_rec complex_eq_iff)
  moreover have "z_seq exact_arith (Complex (- 1) (- 1)) 1 = Complex (- 1) 1"
    by (simp add: exact_arith_def complex_eq_iff power2_eq_square)
  moreover have "z_seq exact_arith (Complex (- 1) (- 1)) 2 = Complex (- 1) (- 3)"
    by (simp add: exact_arith_def numeral_2_eq_2 complex_eq_iff power2_eq_square)
  ultimately show ?thesis
    using mandelbrot_scenario_corner by simp
qed

theorem scenario_corner_counterexample: "mandelbrot exact_arith (Complex (- 1) (- 1)) 5 \<noteq> 1"
  by (simp add: mandelbrot_def mandelbrot_loop_exact power2_eq_square)

text \<open>
  C8, as the model has it: \<open>linspace lo hi N\<close> has \<open>N\<close> elements; its first element is \<open>lo\<close>
  when \<open>N \<ge> 1\<close>; when \<open>N \<ge> 2\<close> its last element is \<open>hi\<close> and consecutive elements differ
  by \<open>(hi - lo) / (N - 1)\<close>; and \<open>linspace (-2) 2 5\<close> is \<open>[-2, -1, 0, 1, 2]\<close>. A single
  sample cannot be both ends of an interval: \<open>linspace (-2) 2 1\<close> is \<open>[-2]\<close>, whose last
  element is not 2.
\<close>

theorem linspace_endpoints:
  "length (linspace lo hi N) = N
   \<and> (1 \<le> N \<longrightarrow> hd (linspace lo hi N) = lo)
   \<and> (2 \<le> N \<longrightarrow> last (linspace lo hi N) = hi
        \<and> (\<forall>k. Suc k < N \<longrightarrow>
              linspace lo hi N ! Suc k - linspace lo hi N ! k = (hi - lo) / real (N - 1)))
   \<and> linspace (- 2) 2 5 = [- 2, - 1, 0, 1, 2]"
proof -
  have len: "length (linspace lo hi N) = N"
    by (rule length_linspace)
  have first: "hd (linspace lo hi N) = lo" if "1 \<le> N"
  proof -
    from that have "linspace lo hi N \<noteq> []" using len by auto
    then have "hd (linspace lo hi N) = linspace lo hi N ! 0" by (rule hd_conv_nth)
    also have "\<dots> = lo" using that by (simp add: linspace_nth)
    finally show ?thesis .
  qed
  have final: "last (linspace lo hi N) = hi" if "2 \<le> N"
  proof -
    from that have "linspace lo hi N \<noteq> []" using len by auto
    then have "last (linspace lo hi N) = linspace lo hi N ! (N - 1)"
      using len by (simp add: last_conv_nth)
    also have "\<dots> = lo + real (N - 1) * ((hi - lo) / real (N - 1))"
      using that by (simp add: linspace_nth)
    also have "\<dots> = hi" using that by simp
    finally show ?thesis .
  qed
  have step: "linspace lo hi N ! Suc k - linspace lo hi N ! k = (hi - lo) / real (N - 1)"
    if "Suc k < N" for k
  proof -
    define d where "d = (hi - lo) / real (N - 1)"
    have "linspace lo hi N ! Suc k = lo + real (Suc k) * d"
      using that unfolding d_def by (rule linspace_nth)
    moreover have "linspace lo hi N ! k = lo + real k * d"
      using Suc_lessD [OF that] unfolding d_def by (rule linspace_nth)
    ultimately have "linspace lo hi N ! Suc k - linspace lo hi N ! k = d"
      by (simp add: algebra_simps)
    then show ?thesis by (simp add: d_def)
  qed
  have five: "linspace (- 2) 2 5 = [- 2, - 1, 0, 1, 2]"
    by (simp add: linspace_def upt_rec)
  from len first final step five show ?thesis by blast
qed

theorem linspace_endpoints_witness:
  "(1::nat) \<le> 5 \<and> (2::nat) \<le> 5 \<and> Suc 0 < (5::nat)
   \<and> length (linspace (- 2) 2 5) = 5
   \<and> hd (linspace (- 2) 2 5) = - 2 \<and> last (linspace (- 2) 2 5) = 2
   \<and> linspace (- 2) 2 5 ! Suc 0 - linspace (- 2) 2 5 ! 0 = 1"
  using linspace_endpoints [of "- 2" 2 5] by simp

theorem linspace_single_counterexample:
  "length (linspace (- 2) 2 1) = 1 \<and> last (linspace (- 2) 2 1) \<noteq> 2"
  by (simp add: linspace_def)

end
